theory Spec2Isabelle
  imports
    Main
    "HOL-Library.Char_ord"
    "HOL-Library.List_Lexorder"
    "HOL-Library.Option_ord"
    "HOL-Library.Product_Lexorder"
    "HOL-Library.Multiset"
begin

section \<open>The data model of \<^verbatim>\<open>db/db_operations.py\<close>\<close>

text \<open>
  The operations of \<^verbatim>\<open>db_operations.py\<close> work on ORM objects of the classes
  \<^verbatim>\<open>User\<close>, \<^verbatim>\<open>ClubMembership\<close>, \<^verbatim>\<open>Event\<close> and \<^verbatim>\<open>EventTag\<close>. Each class is a record
  holding the attributes the operations read or write; a table is the list of its rows in
  the order the store returns them. A generated primary key is \<open>None\<close> until the object
  has been flushed, as the attribute \<^verbatim>\<open>id\<close> of a new Python object is; a nullable column is
  an \<open>option\<close> too. Calendar dates and times of day are triples of integers compared
  lexicographically, which is the order of Python's \<^verbatim>\<open>date\<close> and \<^verbatim>\<open>time\<close>.
\<close>

type_synonym date = "int \<times> int \<times> int"
type_synonym time = "int \<times> int \<times> int"

record User =
  User_id :: "int option"
  User_email :: string
  User_user_privilege :: int

record ClubMembership =
  ClubMembership_user_id :: int
  ClubMembership_club_id :: int
  ClubMembership_member_privilege :: int

record Event =
  Event_id :: "int option"
  Event_title :: string
  Event_user_id :: "int option"
  Event_description :: string
  Event_club_id :: "int option"
  Event_description_html :: "string option"
  Event_location :: "string option"
  Event_start_date :: "date option"
  Event_end_date :: "date option"
  Event_start_time :: "time option"
  Event_end_time :: "time option"
  Event_cta_link :: "string option"

record EventTag =
  EventTag_event_id :: int
  EventTag_event_tag :: int

record database =
  User_table :: "User list"
  ClubMembership_table :: "ClubMembership list"
  Event_table :: "Event list"
  EventTag_table :: "EventTag list"

text \<open>
  Modelled from the spec: the enumerations \<^verbatim>\<open>UserPrivilege\<close> and \<^verbatim>\<open>MemberPrivilege\<close> live in
  \<^verbatim>\<open>db/schema.py\<close>, which is not among the sources. The spec names their members
  (NORMAL, ADMIN and MEMBER, OFFICER), gives \<open>0\<close> as the default privilege of a new user
  and of a new member, and orders OFFICER above MEMBER.
\<close>

definition UserPrivilege_NORMAL :: int where
  "UserPrivilege_NORMAL = 0"

definition UserPrivilege_ADMIN :: int where
  "UserPrivilege_ADMIN = 1"


definition MemberPrivilege_OFFICER :: int where
  "MemberPrivilege_OFFICER = 1"

section \<open>The session\<close>

text \<open>
  A SQLAlchemy session is the state every operation threads through. \<open>stored\<close> is what
  has been committed, \<open>view\<close> is what the session's queries see (the stored rows and the
  changes of the open transaction). The store's answers are an input: \<open>faults\<close> lists, for
  the fallible steps to come, whether each one succeeds (\<open>None\<close>) or raises; a step
  beyond the end of the list succeeds. The fallible steps are \<^verbatim>\<open>session.commit()\<close> and the
  attribute assignments the source wraps in \<^verbatim>\<open>try\<close>; queries, the bulk delete and
  \<^verbatim>\<open>session.add\<close> are taken to succeed.
\<close>

datatype exn = IntegrityError | DBAPIError | AssertionError | ValueError

record session =
  stored :: database
  "view" :: database
  faults :: "exn option list"

definition session_commit :: "session \<Rightarrow> (exn + unit) \<times> session" where
  "session_commit s =
     (case faults s of
        [] \<Rightarrow> (Inr (), s\<lparr>stored := view s\<rparr>)
      | None # fs \<Rightarrow> (Inr (), s\<lparr>stored := view s, faults := fs\<rparr>)
      | Some e # fs \<Rightarrow> (Inl e, s\<lparr>faults := fs\<rparr>))"

definition session_rollback :: "session \<Rightarrow> session" where
  "session_rollback s = s\<lparr>view := stored s\<rparr>"

text \<open>Python's truth value of an optional integer: \<^verbatim>\<open>None\<close> and \<^verbatim>\<open>0\<close> are false.\<close>

definition truthy :: "int option \<Rightarrow> bool" where
  "truthy x = (case x of None \<Rightarrow> False | Some n \<Rightarrow> n \<noteq> 0)"

section \<open>Permission checking\<close>

definition has_edit_permission :: "session \<Rightarrow> int \<Rightarrow> int \<Rightarrow> bool" where
  "has_edit_permission s user_id event_id =
     (case find (\<lambda>u. User_id u = Some user_id) (User_table (view s)) of
        None \<Rightarrow> False
      | Some user \<Rightarrow>
          if User_user_privilege user = UserPrivilege_ADMIN then True
          else
            (case find (\<lambda>e. Event_id e = Some event_id) (Event_table (view s)) of
               None \<Rightarrow> False
             | Some event \<Rightarrow>
                 if Event_user_id event = Some user_id then True
                 else if \<not> truthy (Event_club_id event) then False
                 else
                   find (\<lambda>m. ClubMembership_user_id m = user_id
                            \<and> Some (ClubMembership_club_id m) = Event_club_id event
                            \<and> ClubMembership_member_privilege m = MemberPrivilege_OFFICER)
                        (ClubMembership_table (view s)) \<noteq> None))"

section \<open>Reading events by month\<close>

text \<open>
  \<^verbatim>\<open>calendar.monthrange\<close> and the constructor of \<^verbatim>\<open>datetime\<close> are the standard library's.
  \<^verbatim>\<open>monthrange\<close> returns the weekday of the first day and the number of days of the month;
  \<^verbatim>\<open>get_events_by_month\<close> discards the first, so only the second is modelled. The current year
  (\<^verbatim>\<open>datetime.now().year\<close>) is an explicit argument. \<^verbatim>\<open>ORDER BY\<close> is a sort on the tuple of the
  three columns, with \<^verbatim>\<open>NULL\<close> before every value.
\<close>

definition isleap :: "int \<Rightarrow> bool" where
  "isleap year = (year mod 4 = 0 \<and> (year mod 100 \<noteq> 0 \<or> year mod 400 = 0))"

definition mdays :: "int list" where
  "mdays = [0, 31, 28, 31, 30, 31, 30, 31, 31, 30, 31, 30, 31]"

definition monthrange_ndays :: "int \<Rightarrow> int \<Rightarrow> exn + int" where
  "monthrange_ndays year month =
     (if \<not> (1 \<le> month \<and> month \<le> 12) then Inl ValueError
      else Inr (mdays ! nat month + (if month = 2 \<and> isleap year then 1 else 0)))"

definition datetime_date :: "int \<Rightarrow> int \<Rightarrow> int \<Rightarrow> exn + date" where
  "datetime_date year month day =
     (if \<not> (1 \<le> year \<and> year \<le> 9999) then Inl ValueError
      else if \<not> (1 \<le> month \<and> month \<le> 12) then Inl ValueError
      else if \<not> (1 \<le> day
                  \<and> day \<le> mdays ! nat month + (if month = 2 \<and> isleap year then 1 else 0))
        then Inl ValueError
      else Inr (year, month, day))"

definition start_date_between :: "date \<Rightarrow> date \<Rightarrow> Event \<Rightarrow> bool" where
  "start_date_between from_date to_date e =
     (case Event_start_date e of None \<Rightarrow> False | Some d \<Rightarrow> from_date \<le> d \<and> d \<le> to_date)"

definition order_key :: "Event \<Rightarrow> date option \<times> time option \<times> string" where
  "order_key e = (Event_start_date e, Event_start_time e, Event_title e)"

definition get_events_by_month :: "session \<Rightarrow> int \<Rightarrow> int option \<Rightarrow> int \<Rightarrow> exn + Event list" where
  "get_events_by_month s month year now_year =
     (if \<not> (1 \<le> month \<and> month \<le> 12) then Inl AssertionError
      else
        let year = (if \<not> truthy year then now_year
                    else (case year of None \<Rightarrow> now_year | Some y \<Rightarrow> y))
        in
          (case monthrange_ndays year month of
             Inl e \<Rightarrow> Inl e
           | Inr last_day_of_month \<Rightarrow>
               (case datetime_date year month 1 of
                  Inl e \<Rightarrow> Inl e
                | Inr from_date \<Rightarrow>
                    (case datetime_date year month last_day_of_month of
                       Inl e \<Rightarrow> Inl e
                     | Inr to_date \<Rightarrow>
                         Inr (sort_key order_key
                                (filter (start_date_between from_date to_date)
                                   (Event_table (view s))))))))"

section \<open>Adding rows\<close>

text \<open>The objects \<^verbatim>\<open>add_to_db\<close> can be given: an instance of one of the model classes.\<close>

datatype model = MUser User | MClubMembership ClubMembership | MEvent Event | MEventTag EventTag

text \<open>
  Modelled from the spec: the key columns are declared in \<^verbatim>\<open>db/schema.py\<close>, which is not
  among the sources; the spec only says that the identifier of a new row is generated.
  Here it is one more than the largest key of the table. No property below depends on the
  value chosen.
\<close>

definition generated_id :: "int option list \<Rightarrow> int" where
  "generated_id ids = 1 + fold max (map (\<lambda>i. case i of None \<Rightarrow> 0 | Some n \<Rightarrow> n) ids) 0"

text \<open>
  \<^verbatim>\<open>session.add\<close> puts an object into the session's view of its table; an object with no
  primary key yet receives a generated one.
\<close>

definition session_add :: "model \<Rightarrow> session \<Rightarrow> session" where
  "session_add obj s =
     (let db = view s in
      case obj of
        MUser u \<Rightarrow>
          s\<lparr>view := db\<lparr>User_table := User_table db @
               [if User_id u = None
                then u\<lparr>User_id := Some (generated_id (map User_id (User_table db)))\<rparr> else u]\<rparr>\<rparr>
      | MClubMembership m \<Rightarrow>
          s\<lparr>view := db\<lparr>ClubMembership_table := ClubMembership_table db @ [m]\<rparr>\<rparr>
      | MEvent e \<Rightarrow>
          s\<lparr>view := db\<lparr>Event_table := Event_table db @
               [if Event_id e = None
                then e\<lparr>Event_id := Some (generated_id (map Event_id (Event_table db)))\<rparr> else e]\<rparr>\<rparr>
      | MEventTag t \<Rightarrow>
          s\<lparr>view := db\<lparr>EventTag_table := EventTag_table db @ [t]\<rparr>\<rparr>)"

definition MAX_COMMIT_RETRIES :: int where
  "MAX_COMMIT_RETRIES = 10"

text \<open>The body of the \<^verbatim>\<open>try\<close> of \<^verbatim>\<open>add_to_db\<close>: add the object, add the others, commit.\<close>

definition add_attempt :: "model \<Rightarrow> model list option \<Rightarrow> session \<Rightarrow> (exn + unit) \<times> session" where
  "add_attempt obj others s =
     (let s1 = session_add obj s;
          s2 = (case others of
                  None \<Rightarrow> s1
                | Some os \<Rightarrow> if os = [] then s1 else fold session_add os s1)
      in session_commit s2)"

text \<open>
  The \<^verbatim>\<open>while\<close> loop of \<^verbatim>\<open>add_to_db\<close>, on its two variables \<^verbatim>\<open>committed\<close> and \<^verbatim>\<open>retry\<close>. The
  natural number beside the result is not a variable of the source: it counts how many
  times the \<^verbatim>\<open>try\<close> block has been entered.
\<close>

function add_to_db_loop ::
  "model \<Rightarrow> model list option \<Rightarrow> (session \<Rightarrow> (exn + unit) \<times> session) option
     \<Rightarrow> bool \<Rightarrow> int \<Rightarrow> nat \<Rightarrow> session \<Rightarrow> ((exn + bool) \<times> session) \<times> nat" where
  "add_to_db_loop obj others rollbackfunc committed retry n s =
     (if \<not> committed \<and> retry > 0 then
        (case add_attempt obj others s of
           (Inr u, s1) \<Rightarrow> add_to_db_loop obj others rollbackfunc True retry (Suc n) s1
         | (Inl e, s1) \<Rightarrow>
             if e = IntegrityError then
               (let s2 = session_rollback s1 in
                case rollbackfunc of
                  Some f \<Rightarrow>
                    (case f s2 of
                       (Inl e', s3) \<Rightarrow> ((Inl e', s3), Suc n)
                     | (Inr u, s3) \<Rightarrow>
                         add_to_db_loop obj others rollbackfunc False (retry - 1) (Suc n) s3)
                | None \<Rightarrow>
                    add_to_db_loop obj others rollbackfunc False (0 - 1) (Suc n) s2)
             else ((Inl e, s1), Suc n))
      else ((Inr committed, s), n))"
  by pat_completeness auto
termination
  by (relation "measure (\<lambda>(obj, others, rollbackfunc, committed, retry, n, s).
                           if committed then 0 else nat retry + 1)") auto

definition add_to_db ::
  "session \<Rightarrow> model \<Rightarrow> model list option \<Rightarrow> (session \<Rightarrow> (exn + unit) \<times> session) option
     \<Rightarrow> (exn + bool) \<times> session" where
  "add_to_db s obj others rollbackfunc =
     fst (add_to_db_loop obj others rollbackfunc False MAX_COMMIT_RETRIES 0 s)"

definition add_to_db_attempts ::
  "session \<Rightarrow> model \<Rightarrow> model list option \<Rightarrow> (session \<Rightarrow> (exn + unit) \<times> session) option
     \<Rightarrow> nat" where
  "add_to_db_attempts s obj others rollbackfunc =
     snd (add_to_db_loop obj others rollbackfunc False MAX_COMMIT_RETRIES 0 s)"

definition add_event_tags :: "session \<Rightarrow> int \<Rightarrow> int list \<Rightarrow> (exn + unit) \<times> session" where
  "add_event_tags s event_id event_tags =
     (let s1 = s\<lparr>view := (view s)\<lparr>EventTag_table :=
                  filter (\<lambda>t. \<not> EventTag_event_id t = event_id) (EventTag_table (view s))\<rparr>\<rparr>;
          new_tags = map (\<lambda>tag. \<lparr>EventTag_event_id = event_id, EventTag_event_tag = tag\<rparr>) event_tags;
          s2 = fold session_add (map MEventTag new_tags) s1
      in session_commit s2)"

text \<open>
  After a successful \<^verbatim>\<open>add_to_db\<close> the new object is the row \<^verbatim>\<open>session.add\<close> appended to
  its table, and its attribute \<^verbatim>\<open>id\<close> is that row's key.
\<close>

definition new_user_id :: "session \<Rightarrow> int option" where
  "new_user_id s = (case rev (User_table (view s)) of [] \<Rightarrow> None | u # us \<Rightarrow> User_id u)"

definition add_user :: "session \<Rightarrow> string \<Rightarrow> int \<Rightarrow> (exn + int option) \<times> session" where
  "add_user s email user_privilege =
     (case find (\<lambda>u. User_email u = email) (User_table (view s)) of
        Some curr_user \<Rightarrow> (Inr (User_id curr_user), s)
      | None \<Rightarrow>
          (let new_user = \<lparr>User_id = None, User_email = email,
                           User_user_privilege = user_privilege\<rparr>
           in case add_to_db s (MUser new_user) None None of
                (Inl e, s1) \<Rightarrow> (Inl e, s1)
              | (Inr committed, s1) \<Rightarrow>
                  if committed then (Inr (new_user_id s1), s1) else (Inr None, s1)))"

fun update_first :: "('a \<Rightarrow> bool) \<Rightarrow> ('a \<Rightarrow> 'a) \<Rightarrow> 'a list \<Rightarrow> 'a list" where
  "update_first P f [] = []"
| "update_first P f (x # xs) = (if P x then f x # xs else x # update_first P f xs)"



section \<open>Updating events\<close>

text \<open>
  An assignment to an attribute of the event found by the query changes that row in the
  session's view. The source puts the assignments in a \<^verbatim>\<open>try\<close> with a bare \<^verbatim>\<open>except\<close>, so
  each of them is a step that may raise.
\<close>

definition set_event_attr :: "int \<Rightarrow> (Event \<Rightarrow> Event) \<Rightarrow> session \<Rightarrow> (exn + unit) \<times> session" where
  "set_event_attr event_id f s =
     (let s1 = s\<lparr>view := (view s)\<lparr>Event_table :=
                  update_first (\<lambda>e. Event_id e = Some event_id) f (Event_table (view s))\<rparr>\<rparr>
      in case faults s of
           [] \<Rightarrow> (Inr (), s1)
         | None # fs \<Rightarrow> (Inr (), s1\<lparr>faults := fs\<rparr>)
         | Some e # fs \<Rightarrow> (Inl e, s\<lparr>faults := fs\<rparr>))"

fun assign_all :: "int \<Rightarrow> (Event \<Rightarrow> Event) list \<Rightarrow> session \<Rightarrow> (exn + unit) \<times> session" where
  "assign_all event_id [] s = (Inr (), s)"
| "assign_all event_id (f # fs) s =
     (case set_event_attr event_id f s of
        (Inl e, s1) \<Rightarrow> (Inl e, s1)
      | (Inr u, s1) \<Rightarrow> assign_all event_id fs s1)"

definition update_event_description ::
  "session \<Rightarrow> int \<Rightarrow> string \<Rightarrow> string option \<Rightarrow> (exn + bool) \<times> session" where
  "update_event_description s event_id description description_html =
     (case find (\<lambda>e. Event_id e = Some event_id) (Event_table (view s)) of
        None \<Rightarrow> (Inr False, s)
      | Some event \<Rightarrow>
          (case assign_all event_id
                  [\<lambda>e. e\<lparr>Event_description := description\<rparr>,
                   \<lambda>e. e\<lparr>Event_description_html := description_html\<rparr>] s of
             (Inl e, s1) \<Rightarrow> (Inr (\<not> True), session_rollback s1)
           | (Inr u, s1) \<Rightarrow>
               (case session_commit s1 of
                  (Inl e, s2) \<Rightarrow> (Inl e, s2)
                | (Inr u, s2) \<Rightarrow> (Inr (\<not> False), s2))))"

definition update_event ::
  "session \<Rightarrow> int \<Rightarrow> string \<Rightarrow> string \<Rightarrow> int list option
     \<Rightarrow> date option \<Rightarrow> date option \<Rightarrow> time option \<Rightarrow> time option
     \<Rightarrow> string option \<Rightarrow> int option \<Rightarrow> string option \<Rightarrow> string option
     \<Rightarrow> (exn + bool) \<times> session" where
  "update_event s event_id title description event_tags start_date end_date start_time end_time
       description_html club_id location cta_link =
     (case find (\<lambda>e. Event_id e = Some event_id) (Event_table (view s)) of
        None \<Rightarrow> (Inr False, s)
      | Some event \<Rightarrow>
          (case
             (case assign_all event_id
                     [\<lambda>e. e\<lparr>Event_title := title\<rparr>,
                      \<lambda>e. e\<lparr>Event_description := description\<rparr>,
                      \<lambda>e. e\<lparr>Event_description_html := description_html\<rparr>,
                      \<lambda>e. e\<lparr>Event_location := location\<rparr>,
                      \<lambda>e. e\<lparr>Event_start_date := start_date\<rparr>,
                      \<lambda>e. e\<lparr>Event_end_date := end_date\<rparr>,
                      \<lambda>e. e\<lparr>Event_start_time := start_time\<rparr>,
                      \<lambda>e. e\<lparr>Event_end_time := end_time\<rparr>,
                      \<lambda>e. e\<lparr>Event_cta_link := cta_link\<rparr>] s of
                (Inl e, s1) \<Rightarrow> (Inr True, session_rollback s1)
              | (Inr u, s1) \<Rightarrow>
                  (case session_commit s1 of
                     (Inl e, s2) \<Rightarrow> (Inl e, s2)
                   | (Inr u, s2) \<Rightarrow> (Inr False, s2))) of
             (Inl e, s2) \<Rightarrow> (Inl e, s2)
           | (Inr error, s2) \<Rightarrow>
               (case event_tags of
                  None \<Rightarrow> (Inr (\<not> error), s2)
                | Some tags \<Rightarrow>
                    if tags = [] then (Inr (\<not> error), s2)
                    else
                      (case add_event_tags s2 event_id tags of
                         (Inl e, s3) \<Rightarrow> (Inl e, s3)
                       | (Inr u, s3) \<Rightarrow> (Inr (\<not> error), s3)))))"

text \<open>
  \<open>conflict_rounds obj others f k s\<close> follows \<open>k\<close> rounds of \<^verbatim>\<open>add_to_db\<close> from \<open>s\<close> in which
  every attempt raises \<^verbatim>\<open>IntegrityError\<close> and the callback \<open>f\<close> returns normally; it is the
  state after these rounds, and \<open>None\<close> when one of the \<open>k\<close> attempts goes differently.
\<close>

fun conflict_rounds ::
  "model \<Rightarrow> model list option \<Rightarrow> (session \<Rightarrow> (exn + unit) \<times> session)
     \<Rightarrow> nat \<Rightarrow> session \<Rightarrow> session option" where
  "conflict_rounds obj others f 0 s = Some s"
| "conflict_rounds obj others f (Suc k) s =
     (case add_attempt obj others s of
        (Inr u, s1) \<Rightarrow> None
      | (Inl e, s1) \<Rightarrow>
          if e = IntegrityError then
            (case f (session_rollback s1) of
               (Inl e', s3) \<Rightarrow> None
             | (Inr u, s3) \<Rightarrow> conflict_rounds obj others f k s3)
          else None)"

section \<open>Notions used to state the properties\<close>

text \<open>
  The last day of a month of the Gregorian calendar, written out month by month; the
  number of days \<^verbatim>\<open>get_events_by_month\<close> computes is compared with it.
\<close>

definition last_calendar_day :: "int \<Rightarrow> int \<Rightarrow> int" where
  "last_calendar_day year month =
     (if month = 2 then
        (if year mod 4 = 0 \<and> (year mod 100 \<noteq> 0 \<or> year mod 400 = 0) then 29 else 28)
      else if month = 4 \<or> month = 6 \<or> month = 9 \<or> month = 11 then 30
      else 31)"

text \<open>The next fallible step of the session succeeds: the store raises nothing at it.\<close>

definition commit_succeeds :: "session \<Rightarrow> bool" where
  "commit_succeeds s = (case faults s of Some e # fs \<Rightarrow> False | _ \<Rightarrow> True)"

text \<open>
  The identity and ownership of the events of a database: the \<^verbatim>\<open>id\<close>, \<^verbatim>\<open>user_id\<close> and
  \<^verbatim>\<open>club_id\<close> of every row, in table order. \<open>keeps_owners s s'\<close> says that in \<open>s'\<close> both the
  session's view and the store hold ownership data that \<open>s\<close> already held, in its view or in
  its store; \<open>keeps_owner_fields f\<close> says that the field update \<open>f\<close> leaves the three
  columns alone.
\<close>

definition owners :: "database \<Rightarrow> (int option \<times> int option \<times> int option) list" where
  "owners db = map (\<lambda>e. (Event_id e, Event_user_id e, Event_club_id e)) (Event_table db)"

definition keeps_owners :: "session \<Rightarrow> session \<Rightarrow> bool" where
  "keeps_owners s s' =
     (owners (view s') \<in> {owners (view s), owners (stored s)}
      \<and> owners (stored s') \<in> {owners (view s), owners (stored s)})"

definition keeps_owner_fields :: "(Event \<Rightarrow> Event) \<Rightarrow> bool" where
  "keeps_owner_fields f =
     (\<forall>e. Event_id (f e) = Event_id e \<and> Event_user_id (f e) = Event_user_id e
           \<and> Event_club_id (f e) = Event_club_id e)"

section \<open>Example sessions\<close>

definition perm_event :: Event where
  "perm_event = \<lparr>Event_id = Some 7, Event_title = ''Tea'', Event_user_id = Some 2,
      Event_description = ''tea at five'', Event_club_id = Some 5,
      Event_description_html = None, Event_location = None,
      Event_start_date = None, Event_end_date = None,
      Event_start_time = None, Event_end_time = None, Event_cta_link = None\<rparr>"

definition perm_db :: database where
  "perm_db = \<lparr>User_table =
       [\<lparr>User_id = Some 1, User_email = ''root'', User_user_privilege = 1\<rparr>,
        \<lparr>User_id = Some 2, User_email = ''ann'', User_user_privilege = 0\<rparr>,
        \<lparr>User_id = Some 3, User_email = ''bob'', User_user_privilege = 0\<rparr>,
        \<lparr>User_id = Some 4, User_email = ''cy'', User_user_privilege = 0\<rparr>],
     ClubMembership_table =
       [\<lparr>ClubMembership_user_id = 4, ClubMembership_club_id = 5,
          ClubMembership_member_privilege = 0\<rparr>,
        \<lparr>ClubMembership_user_id = 3, ClubMembership_club_id = 5,
          ClubMembership_member_privilege = 1\<rparr>],
     Event_table = [perm_event],
     EventTag_table = []\<rparr>"

definition perm_session :: session where
  "perm_session = \<lparr>stored = perm_db, view = perm_db, faults = []\<rparr>"

definition retry_user :: model where
  "retry_user = MUser \<lparr>User_id = None, User_email = ''ann'', User_user_privilege = 0\<rparr>"

definition empty_db :: database where
  "empty_db = \<lparr>User_table = [], ClubMembership_table = [], Event_table = [], EventTag_table = []\<rparr>"

definition fresh_session :: "exn option list \<Rightarrow> session" where
  "fresh_session fs = \<lparr>stored = empty_db, view = empty_db, faults = fs\<rparr>"

definition one_user_db :: database where
  "one_user_db = empty_db\<lparr>User_table :=
     [\<lparr>User_id = Some 1, User_email = ''ann'', User_user_privilege = 0\<rparr>]\<rparr>"

definition dirty_session :: "exn option list \<Rightarrow> session" where
  "dirty_session fs = \<lparr>stored = empty_db, view = one_user_db, faults = fs\<rparr>"

definition saved_session :: "exn option list \<Rightarrow> session" where
  "saved_session fs = \<lparr>stored = one_user_db, view = one_user_db, faults = fs\<rparr>"

definition no_op :: "session \<Rightarrow> (exn + unit) \<times> session" where
  "no_op s = (Inr (), s)"

definition month_event :: "string \<Rightarrow> date option \<Rightarrow> time option \<Rightarrow> Event" where
  "month_event title d t = \<lparr>Event_id = None, Event_title = title, Event_user_id = None,
      Event_description = [], Event_club_id = None,
      Event_description_html = None, Event_location = None,
      Event_start_date = d, Event_end_date = None,
      Event_start_time = t, Event_end_time = None, Event_cta_link = None\<rparr>"

definition month_session :: session where
  "month_session =
     (let db = \<lparr>User_table = [], ClubMembership_table = [],
                Event_table = [month_event ''d'' (Some (2024, 3, 1)) None,
                               month_event ''c'' (Some (2024, 2, 29)) (Some (9, 0, 0)),
                               month_event ''b'' (Some (2024, 2, 29)) None,
                               month_event ''a'' None None,
                               month_event ''b'' (Some (2024, 2, 1)) (Some (9, 0, 0)),
                               month_event ''a'' (Some (2024, 2, 1)) (Some (9, 0, 0)),
                               month_event ''e'' (Some (2024, 1, 31)) None],
                EventTag_table = []\<rparr>
      in \<lparr>stored = db, view = db, faults = []\<rparr>)"

definition tag_session :: "EventTag list \<Rightarrow> exn option list \<Rightarrow> session" where
  "tag_session ts fs =
     (let db = \<lparr>User_table = [], ClubMembership_table = [], Event_table = [],
                EventTag_table = ts\<rparr>
      in \<lparr>stored = db, view = db, faults = fs\<rparr>)"

definition tag_row :: "int \<Rightarrow> int \<Rightarrow> EventTag" where
  "tag_row event_id tag = \<lparr>EventTag_event_id = event_id, EventTag_event_tag = tag\<rparr>"

definition user_row :: "int \<Rightarrow> string \<Rightarrow> int \<Rightarrow> User" where
  "user_row i email p = \<lparr>User_id = Some i, User_email = email, User_user_privilege = p\<rparr>"

definition user_session :: "User list \<Rightarrow> exn option list \<Rightarrow> session" where
  "user_session us fs =
     (let db = \<lparr>User_table = us, ClubMembership_table = [], Event_table = [],
                EventTag_table = []\<rparr>
      in \<lparr>stored = db, view = db, faults = fs\<rparr>)"



definition full_event :: Event where
  "full_event = \<lparr>Event_id = Some 7, Event_title = ''Tea'', Event_user_id = Some 2,
      Event_description = ''old'', Event_club_id = Some 5,
      Event_description_html = Some ''<p>old</p>'', Event_location = Some ''W20'',
      Event_start_date = Some (2024, 2, 29), Event_end_date = Some (2024, 3, 1),
      Event_start_time = Some (17, 0, 0), Event_end_time = Some (18, 0, 0),
      Event_cta_link = Some ''http://tea''\<rparr>"

definition event_db :: "Event list \<Rightarrow> database" where
  "event_db es = \<lparr>User_table = [], ClubMembership_table = [], Event_table = es,
                  EventTag_table = []\<rparr>"

definition event_session :: "Event list \<Rightarrow> exn option list \<Rightarrow> session" where
  "event_session es fs = \<lparr>stored = event_db es, view = event_db es, faults = fs\<rparr>"

section \<open>Properties of the permission check\<close>

lemma find_neq_None_iff: "(find P xs \<noteq> None) = (\<exists>x\<in>set xs. P x)"
  by (auto simp: find_None_iff)

text \<open>
  Claim C1. \<^verbatim>\<open>has_edit_permission\<close> holds exactly when the user with the given id exists and
  (a) is an administrator, or (b) the event with the given id exists and is owned by that
  user, or (c) the event exists, has an associated club (its \<^verbatim>\<open>club_id\<close> is true for Python:
  neither \<^verbatim>\<open>None\<close> nor \<open>0\<close>) and some membership row links the user to that club as
  an officer. "The user with id \<open>n\<close>" is the row that \<^verbatim>\<open>first()\<close> returns. An absent user
  yields false; an absent event yields false for a user who is not an administrator; an
  administrator is granted whatever the event table holds, the event being looked up only
  after the administrator test.
\<close>

theorem has_edit_permission_iff:
  "(has_edit_permission s user_id event_id \<longleftrightarrow>
     (\<exists>user. find (\<lambda>u. User_id u = Some user_id) (User_table (view s)) = Some user \<and>
        (User_user_privilege user = UserPrivilege_ADMIN \<or>
         (\<exists>event. find (\<lambda>e. Event_id e = Some event_id) (Event_table (view s)) = Some event \<and>
            (Event_user_id event = Some user_id \<or>
             (\<exists>c. Event_club_id event = Some c \<and> c \<noteq> 0 \<and>
                (\<exists>m \<in> set (ClubMembership_table (view s)).
                    ClubMembership_user_id m = user_id \<and> ClubMembership_club_id m = c \<and>
                    ClubMembership_member_privilege m = MemberPrivilege_OFFICER)))))))
   \<and> (find (\<lambda>u. User_id u = Some user_id) (User_table (view s)) = None
        \<longrightarrow> \<not> has_edit_permission s user_id event_id)
   \<and> (\<forall>user. find (\<lambda>u. User_id u = Some user_id) (User_table (view s)) = Some user
          \<and> User_user_privilege user \<noteq> UserPrivilege_ADMIN
          \<and> find (\<lambda>e. Event_id e = Some event_id) (Event_table (view s)) = None
        \<longrightarrow> \<not> has_edit_permission s user_id event_id)
   \<and> (\<forall>user. find (\<lambda>u. User_id u = Some user_id) (User_table (view s)) = Some user
          \<and> User_user_privilege user = UserPrivilege_ADMIN
        \<longrightarrow> has_edit_permission s user_id event_id)"
  unfolding has_edit_permission_def truthy_def find_neq_None_iff
  by (auto split: option.splits)

theorem has_edit_permission_iff_witness:
  "has_edit_permission perm_session 1 99
   \<and> has_edit_permission perm_session 2 7
   \<and> has_edit_permission perm_session 3 7
   \<and> \<not> has_edit_permission perm_session 4 7
   \<and> \<not> has_edit_permission perm_session 4 99
   \<and> \<not> has_edit_permission perm_session 9 7
   \<and> find (\<lambda>u. User_id u = Some 9) (User_table (view perm_session)) = None
   \<and> find (\<lambda>e. Event_id e = Some 99) (Event_table (view perm_session)) = None"
  using has_edit_permission_iff [of perm_session 1 99]
    has_edit_permission_iff [of perm_session 2 7]
    has_edit_permission_iff [of perm_session 3 7]
    has_edit_permission_iff [of perm_session 4 7]
    has_edit_permission_iff [of perm_session 4 99]
    has_edit_permission_iff [of perm_session 9 7]
  by (simp add: perm_session_def perm_db_def perm_event_def UserPrivilege_ADMIN_def
        MemberPrivilege_OFFICER_def)


section \<open>Properties of the retry loop\<close>

declare add_to_db_loop.simps [simp del]

lemma add_to_db_loop_exit:
  "committed \<or> retry \<le> 0 \<Longrightarrow>
     add_to_db_loop obj others rollbackfunc committed retry n s = ((Inr committed, s), n)"
  by (subst add_to_db_loop.simps) auto

lemma add_to_db_loop_success:
  assumes "\<not> committed" "retry > 0" "add_attempt obj others s = (Inr u, s1)"
  shows "add_to_db_loop obj others rollbackfunc committed retry n s = ((Inr True, s1), Suc n)"
  using assms by (subst add_to_db_loop.simps) (simp add: add_to_db_loop_exit)

lemma add_to_db_loop_other_error:
  assumes "\<not> committed" "retry > 0" "add_attempt obj others s = (Inl e, s1)" "e \<noteq> IntegrityError"
  shows "add_to_db_loop obj others rollbackfunc committed retry n s = ((Inl e, s1), Suc n)"
  using assms by (subst add_to_db_loop.simps) simp

lemma add_to_db_loop_conflict_None:
  assumes "\<not> committed" "retry > 0" "add_attempt obj others s = (Inl IntegrityError, s1)"
  shows "add_to_db_loop obj others None committed retry n s
           = ((Inr False, session_rollback s1), Suc n)"
  using assms by (subst add_to_db_loop.simps) (simp add: add_to_db_loop_exit)

lemma add_to_db_loop_conflict_Some:
  assumes "\<not> committed" "retry > 0" "add_attempt obj others s = (Inl IntegrityError, s1)"
    "f (session_rollback s1) = (Inr u, s3)"
  shows "add_to_db_loop obj others (Some f) committed retry n s
           = add_to_db_loop obj others (Some f) False (retry - 1) (Suc n) s3"
  using assms by (subst add_to_db_loop.simps) simp

lemma add_to_db_loop_rounds:
  "conflict_rounds obj others f k s = Some s' \<Longrightarrow> int k \<le> retry \<Longrightarrow>
     add_to_db_loop obj others (Some f) False retry n s
       = add_to_db_loop obj others (Some f) False (retry - int k) (n + k) s'"
proof (induction k arbitrary: s retry n)
  case 0
  then show ?case by simp
next
  case (Suc k)
  from Suc.prems(1) obtain s1 s3 u where
    att: "add_attempt obj others s = (Inl IntegrityError, s1)" and
    cb: "f (session_rollback s1) = (Inr u, s3)" and
    rest: "conflict_rounds obj others f k s3 = Some s'"
    by (auto split: prod.splits sum.splits if_splits)
  from Suc.prems(2) have pos: "retry > 0" and le: "int k \<le> retry - 1" by simp_all
  have "add_to_db_loop obj others (Some f) False retry n s
          = add_to_db_loop obj others (Some f) False (retry - 1) (Suc n) s3"
    using att cb pos by (simp add: add_to_db_loop_conflict_Some)
  also have "\<dots> = add_to_db_loop obj others (Some f) False (retry - 1 - int k) (Suc n + k) s'"
    using Suc.IH [OF rest le] .
  finally show ?case by (simp add: algebra_simps)
qed

lemma add_to_db_loop_attempts_le:
  "snd (add_to_db_loop obj others rollbackfunc committed retry n s)
     \<le> n + (if committed then 0 else nat retry)"
proof (induction obj others rollbackfunc committed retry n s rule: add_to_db_loop.induct)
  case (1 obj others rollbackfunc committed retry n s)
  show ?case
  proof (cases "\<not> committed \<and> retry > 0")
    case False
    then show ?thesis by (subst add_to_db_loop.simps) auto
  next
    case True
    then have pos: "Suc 0 \<le> nat retry" by linarith
    obtain r s1 where att: "add_attempt obj others s = (r, s1)" by (cases "add_attempt obj others s")
    show ?thesis
    proof (cases r)
      case (Inr u)
      with True att pos show ?thesis by (simp add: add_to_db_loop_success)
    next
      case (Inl e)
      show ?thesis
      proof (cases "e = IntegrityError")
        case False
        with True att Inl pos show ?thesis by (simp add: add_to_db_loop_other_error)
      next
        case e: True
        show ?thesis
        proof (cases rollbackfunc)
          case None
          with True att Inl e pos show ?thesis by (simp add: add_to_db_loop_conflict_None)
        next
          case (Some f)
          obtain r3 s3 where cb: "f (session_rollback s1) = (r3, s3)"
            by (cases "f (session_rollback s1)")
          show ?thesis
          proof (cases r3)
            case (Inl e')
            with True att \<open>r = Inl e\<close> e Some cb pos show ?thesis
              by (subst add_to_db_loop.simps) simp
          next
            case (Inr u)
            have "snd (add_to_db_loop obj others rollbackfunc False (retry - 1) (Suc n) s3)
                    \<le> Suc n + nat (retry - 1)"
              using "1.IH"(2) [OF True att [symmetric] \<open>r = Inl e\<close> e refl Some cb [symmetric] Inr]
              by simp
            moreover have "add_to_db_loop obj others rollbackfunc committed retry n s
                    = add_to_db_loop obj others rollbackfunc False (retry - 1) (Suc n) s3"
              using True att \<open>r = Inl e\<close> e Some cb Inr
              by (simp add: add_to_db_loop_conflict_Some)
            ultimately show ?thesis using True pos by simp
          qed
        qed
      qed
    qed
  qed
qed



text \<open>
  Claim C2. When the first attempt of \<^verbatim>\<open>add_to_db\<close> raises \<^verbatim>\<open>IntegrityError\<close> and no callback
  was given, the session is rolled back and \<open>False\<close> is returned after that one attempt.
  Whatever the callback and the store do, the \<^verbatim>\<open>try\<close> block is entered at most ten times.
  With a callback, ten conflicting attempts in a row (each followed by a rollback and the
  callback) end the loop with \<open>False\<close>; and if an attempt after \<open>k < 10\<close> such rounds
  commits, the result is \<open>True\<close> after \<open>k + 1\<close> attempts.
\<close>

theorem add_to_db_conflict:
  "(add_attempt obj others s = (Inl IntegrityError, s1) \<longrightarrow>
      add_to_db s obj others None = (Inr False, session_rollback s1)
      \<and> add_to_db_attempts s obj others None = 1)
   \<and> add_to_db_attempts s obj others rollbackfunc \<le> 10
   \<and> (conflict_rounds obj others f 10 s = Some s' \<longrightarrow>
      add_to_db s obj others (Some f) = (Inr False, s')
      \<and> add_to_db_attempts s obj others (Some f) = 10)
   \<and> (k < 10 \<and> conflict_rounds obj others f k s = Some s'
        \<and> add_attempt obj others s' = (Inr (), s1) \<longrightarrow>
      add_to_db s obj others (Some f) = (Inr True, s1)
      \<and> add_to_db_attempts s obj others (Some f) = Suc k)"
proof (intro conjI impI)
  assume "add_attempt obj others s = (Inl IntegrityError, s1)"
  then have "add_to_db_loop obj others None False MAX_COMMIT_RETRIES 0 s
               = ((Inr False, session_rollback s1), Suc 0)"
    by (simp add: add_to_db_loop_conflict_None MAX_COMMIT_RETRIES_def)
  then show "add_to_db s obj others None = (Inr False, session_rollback s1)"
    and "add_to_db_attempts s obj others None = 1"
    by (simp_all add: add_to_db_def add_to_db_attempts_def)
next
  show "add_to_db_attempts s obj others rollbackfunc \<le> 10"
    using add_to_db_loop_attempts_le [of obj others rollbackfunc False MAX_COMMIT_RETRIES 0 s]
    by (simp add: add_to_db_attempts_def MAX_COMMIT_RETRIES_def)
next
  assume "conflict_rounds obj others f 10 s = Some s'"
  then have "add_to_db_loop obj others (Some f) False MAX_COMMIT_RETRIES 0 s
               = add_to_db_loop obj others (Some f) False (MAX_COMMIT_RETRIES - int 10) (0 + 10) s'"
    by (rule add_to_db_loop_rounds) (simp add: MAX_COMMIT_RETRIES_def)
  then have "add_to_db_loop obj others (Some f) False MAX_COMMIT_RETRIES 0 s
               = ((Inr False, s'), 10)"
    by (simp add: add_to_db_loop_exit MAX_COMMIT_RETRIES_def)
  then show "add_to_db s obj others (Some f) = (Inr False, s')"
    and "add_to_db_attempts s obj others (Some f) = 10"
    by (simp_all add: add_to_db_def add_to_db_attempts_def)
next
  assume a: "k < 10 \<and> conflict_rounds obj others f k s = Some s'
               \<and> add_attempt obj others s' = (Inr (), s1)"
  then have "add_to_db_loop obj others (Some f) False MAX_COMMIT_RETRIES 0 s
               = add_to_db_loop obj others (Some f) False (MAX_COMMIT_RETRIES - int k) (0 + k) s'"
    by (intro add_to_db_loop_rounds) (simp_all add: MAX_COMMIT_RETRIES_def)
  also have "\<dots> = ((Inr True, s1), Suc k)"
    using a by (simp add: add_to_db_loop_success MAX_COMMIT_RETRIES_def)
  finally show "add_to_db s obj others (Some f) = (Inr True, s1)"
    and "add_to_db_attempts s obj others (Some f) = Suc k"
    by (simp_all add: add_to_db_def add_to_db_attempts_def)
qed

theorem add_to_db_conflict_witness:
  "add_to_db (fresh_session [Some IntegrityError]) retry_user None None
      = (Inr False, fresh_session [])
   \<and> add_to_db_attempts (fresh_session [Some IntegrityError]) retry_user None None = 1
   \<and> add_to_db (fresh_session (replicate 10 (Some IntegrityError))) retry_user None (Some no_op)
      = (Inr False, fresh_session [])
   \<and> add_to_db_attempts (fresh_session (replicate 10 (Some IntegrityError))) retry_user None
        (Some no_op) = 10
   \<and> add_to_db (fresh_session [Some IntegrityError, Some IntegrityError]) retry_user None
        (Some no_op) = (Inr True, saved_session [])
   \<and> add_to_db_attempts (fresh_session [Some IntegrityError, Some IntegrityError]) retry_user None
        (Some no_op) = 3"
proof -
  let ?s1 = "fresh_session [Some IntegrityError]"
  let ?s10 = "fresh_session (replicate 10 (Some IntegrityError))"
  let ?s2 = "fresh_session [Some IntegrityError, Some IntegrityError]"
  have a1: "add_attempt retry_user None ?s1 = (Inl IntegrityError, dirty_session [])"
    by code_simp
  have r1: "session_rollback (dirty_session []) = fresh_session []"
    by code_simp
  have c10: "conflict_rounds retry_user None no_op 10 ?s10 = Some (fresh_session [])"
    by code_simp
  have c2: "(2::nat) < 10 \<and> conflict_rounds retry_user None no_op 2 ?s2 = Some (fresh_session [])
              \<and> add_attempt retry_user None (fresh_session []) = (Inr (), saved_session [])"
    by code_simp
  have "add_to_db ?s1 retry_user None None = (Inr False, fresh_session [])
        \<and> add_to_db_attempts ?s1 retry_user None None = 1"
    using add_to_db_conflict [where obj = retry_user and others = None and s = ?s1
        and ?s1.0 = "dirty_session []"] a1 r1
    by simp
  moreover have "add_to_db ?s10 retry_user None (Some no_op) = (Inr False, fresh_session [])
        \<and> add_to_db_attempts ?s10 retry_user None (Some no_op) = 10"
    using add_to_db_conflict [where obj = retry_user and others = None and s = ?s10
        and f = no_op and s' = "fresh_session []"] c10
    by blast
  moreover have "add_to_db ?s2 retry_user None (Some no_op) = (Inr True, saved_session [])
        \<and> add_to_db_attempts ?s2 retry_user None (Some no_op) = 3"
    using add_to_db_conflict [where obj = retry_user and others = None and s = ?s2
        and ?s1.0 = "saved_session []" and f = no_op and s' = "fresh_session []" and k = 2] c2
    by simp
  ultimately show ?thesis by blast
qed

text \<open>
  Claim C8. An exception other than \<^verbatim>\<open>IntegrityError\<close> raised by an attempt leaves the loop at
  once: \<^verbatim>\<open>add_to_db\<close> ends with that exception, in the state the failed attempt left (no
  rollback, no callback, no further attempt), be it the first attempt or one that follows
  \<open>k < 10\<close> conflicting rounds.
\<close>

theorem add_to_db_other_error:
  "e \<noteq> IntegrityError \<Longrightarrow>
     (add_attempt obj others s = (Inl e, s1) \<longrightarrow>
        add_to_db s obj others rollbackfunc = (Inl e, s1)
        \<and> add_to_db_attempts s obj others rollbackfunc = 1)
     \<and> (k < 10 \<and> conflict_rounds obj others f k s = Some s'
          \<and> add_attempt obj others s' = (Inl e, s1) \<longrightarrow>
        add_to_db s obj others (Some f) = (Inl e, s1)
        \<and> add_to_db_attempts s obj others (Some f) = Suc k)"
proof (intro conjI impI)
  assume e: "e \<noteq> IntegrityError" and "add_attempt obj others s = (Inl e, s1)"
  then have "add_to_db_loop obj others rollbackfunc False MAX_COMMIT_RETRIES 0 s
               = ((Inl e, s1), Suc 0)"
    by (simp add: add_to_db_loop_other_error MAX_COMMIT_RETRIES_def)
  then show "add_to_db s obj others rollbackfunc = (Inl e, s1)"
    and "add_to_db_attempts s obj others rollbackfunc = 1"
    by (simp_all add: add_to_db_def add_to_db_attempts_def)
next
  assume e: "e \<noteq> IntegrityError"
    and a: "k < 10 \<and> conflict_rounds obj others f k s = Some s'
               \<and> add_attempt obj others s' = (Inl e, s1)"
  then have "add_to_db_loop obj others (Some f) False MAX_COMMIT_RETRIES 0 s
               = add_to_db_loop obj others (Some f) False (MAX_COMMIT_RETRIES - int k) (0 + k) s'"
    by (intro add_to_db_loop_rounds) (simp_all add: MAX_COMMIT_RETRIES_def)
  also have "\<dots> = ((Inl e, s1), Suc k)"
    using a e by (simp add: add_to_db_loop_other_error MAX_COMMIT_RETRIES_def)
  finally show "add_to_db s obj others (Some f) = (Inl e, s1)"
    and "add_to_db_attempts s obj others (Some f) = Suc k"
    by (simp_all add: add_to_db_def add_to_db_attempts_def)
qed


theorem add_to_db_other_error_witness:
  "DBAPIError \<noteq> IntegrityError
   \<and> add_to_db (fresh_session [Some DBAPIError]) retry_user None None
       = (Inl DBAPIError, dirty_session [])
   \<and> add_to_db_attempts (fresh_session [Some DBAPIError]) retry_user None None = 1
   \<and> add_to_db (fresh_session [Some IntegrityError, Some DBAPIError]) retry_user None
        (Some no_op) = (Inl DBAPIError, dirty_session [])
   \<and> add_to_db_attempts (fresh_session [Some IntegrityError, Some DBAPIError]) retry_user None
        (Some no_op) = 2"
proof -
  let ?s1 = "fresh_session [Some DBAPIError]"
  let ?s2 = "fresh_session [Some IntegrityError, Some DBAPIError]"
  have e: "DBAPIError \<noteq> IntegrityError" by simp
  have a1: "add_attempt retry_user None ?s1 = (Inl DBAPIError, dirty_session [])"
    by code_simp
  have c1: "(1::nat) < 10 \<and> conflict_rounds retry_user None no_op 1 ?s2 = Some ?s1
              \<and> add_attempt retry_user None ?s1 = (Inl DBAPIError, dirty_session [])"
    by code_simp
  have "add_to_db ?s1 retry_user None None = (Inl DBAPIError, dirty_session [])
        \<and> add_to_db_attempts ?s1 retry_user None None = 1"
    using add_to_db_other_error [OF e, where obj = retry_user and others = None and s = ?s1
        and ?s1.0 = "dirty_session []"] a1
    by blast
  moreover have "add_to_db ?s2 retry_user None (Some no_op) = (Inl DBAPIError, dirty_session [])
        \<and> add_to_db_attempts ?s2 retry_user None (Some no_op) = 2"
    using add_to_db_other_error [OF e, where obj = retry_user and others = None and s = ?s2
        and ?s1.0 = "dirty_session []" and f = no_op and s' = ?s1 and k = 1] c1
    by simp
  ultimately show ?thesis using e by blast
qed

section \<open>Properties of the monthly listing\<close>

lemma mdays_last_calendar_day:
  assumes "1 \<le> month" "month \<le> 12"
  shows "mdays ! nat month + (if month = 2 \<and> isleap year then 1 else 0)
           = last_calendar_day year month"
proof -
  from assms have "month = 1 \<or> month = 2 \<or> month = 3 \<or> month = 4 \<or> month = 5
      \<or> month = 6 \<or> month = 7 \<or> month = 8 \<or> month = 9 \<or> month = 10 \<or> month = 11
      \<or> month = 12"
    by arith
  then show ?thesis
    by (elim disjE) (simp_all add: mdays_def isleap_def last_calendar_day_def)
qed

lemma last_calendar_day_ge: "28 \<le> last_calendar_day year month"
  by (simp add: last_calendar_day_def)

lemma get_events_by_month_valid:
  assumes "1 \<le> month" "month \<le> 12" "1 \<le> year" "year \<le> 9999"
  shows "get_events_by_month s month (Some year) now_year =
           Inr (sort_key order_key
                  (filter (start_date_between (year, month, 1)
                             (year, month, last_calendar_day year month))
                     (Event_table (view s))))"
  using assms last_calendar_day_ge [of year month]
  by (simp add: get_events_by_month_def truthy_def monthrange_ndays_def datetime_date_def
        mdays_last_calendar_day)

lemma date_in_month:
  fixes y m dd :: int
  assumes "1 \<le> dd" "dd \<le> last_calendar_day y m"
  shows "((year, month, 1) \<le> (y, m, dd) \<and> (y, m, dd) \<le> (year, month, last_calendar_day year month))
           \<longleftrightarrow> (y = year \<and> m = month)"
  using assms by (auto simp: less_eq_prod_def less_prod_def)

text \<open>
  Claim C6. For a month in 1..12 and a year that \<^verbatim>\<open>datetime\<close> accepts (1..9999),
  \<^verbatim>\<open>get_events_by_month\<close> returns the events whose start date lies between the first and the
  last day of that month, both included: the same events with the same multiplicities, in
  an order sorted by start date, then start time, then title. The last day is the
  Gregorian one (29 for February of a leap year), so that a date with a valid day lies in
  the interval exactly when it has that year and that month. When the year is omitted, the
  current year takes its place.
\<close>

theorem get_events_by_month_spec:
  assumes "1 \<le> month" "month \<le> 12" "1 \<le> year" "year \<le> 9999"
  shows "(\<exists>evs. get_events_by_month s month (Some year) now_year = Inr evs
            \<and> mset evs = mset (filter (\<lambda>e. \<exists>d. Event_start_date e = Some d
                                       \<and> (year, month, 1) \<le> d
                                       \<and> d \<le> (year, month, last_calendar_day year month))
                                  (Event_table (view s)))
            \<and> sorted (map order_key evs))
         \<and> get_events_by_month s month None year
             = get_events_by_month s month (Some year) now_year
         \<and> (\<forall>y m dd. 1 \<le> dd \<and> dd \<le> last_calendar_day y m \<longrightarrow>
               (((year, month, 1) \<le> (y, m, dd)
                  \<and> (y, m, dd) \<le> (year, month, last_calendar_day year month))
                \<longleftrightarrow> (y = year \<and> m = month)))"
proof (intro conjI)
  have p: "start_date_between lo hi = (\<lambda>e. \<exists>d. Event_start_date e = Some d \<and> lo \<le> d \<and> d \<le> hi)"
    for lo hi
    by (auto simp: start_date_between_def fun_eq_iff split: option.splits)
  show "\<exists>evs. get_events_by_month s month (Some year) now_year = Inr evs
           \<and> mset evs = mset (filter (\<lambda>e. \<exists>d. Event_start_date e = Some d
                                      \<and> (year, month, 1) \<le> d
                                      \<and> d \<le> (year, month, last_calendar_day year month))
                                 (Event_table (view s)))
           \<and> sorted (map order_key evs)"
    by (simp add: get_events_by_month_valid [OF assms] p)
  show "get_events_by_month s month None year = get_events_by_month s month (Some year) now_year"
    using assms by (simp add: get_events_by_month_def truthy_def)
  show "\<forall>y m dd. 1 \<le> dd \<and> dd \<le> last_calendar_day y m \<longrightarrow>
           (((year, month, 1) \<le> (y, m, dd)
              \<and> (y, m, dd) \<le> (year, month, last_calendar_day year month))
            \<longleftrightarrow> (y = year \<and> m = month))"
    using date_in_month by blast
qed

theorem get_events_by_month_spec_witness:
  "(1::int) \<le> 2 \<and> (2::int) \<le> 12 \<and> (1::int) \<le> 2024 \<and> (2024::int) \<le> 9999
   \<and> last_calendar_day 2024 2 = 29
   \<and> get_events_by_month month_session 2 (Some 2024) 2026
       = Inr [month_event ''a'' (Some (2024, 2, 1)) (Some (9, 0, 0)),
              month_event ''b'' (Some (2024, 2, 1)) (Some (9, 0, 0)),
              month_event ''b'' (Some (2024, 2, 29)) None,
              month_event ''c'' (Some (2024, 2, 29)) (Some (9, 0, 0))]
   \<and> get_events_by_month month_session 2 None 2024
       = get_events_by_month month_session 2 (Some 2024) 2026
   \<and> (\<exists>evs. get_events_by_month month_session 2 (Some 2024) 2026 = Inr evs
         \<and> sorted (map order_key evs))"
proof -
  have h: "(1::int) \<le> 2" "(2::int) \<le> 12" "(1::int) \<le> 2024" "(2024::int) \<le> 9999"
    by simp_all
  have l: "last_calendar_day 2024 2 = 29"
    by (simp add: last_calendar_day_def)
  have v: "get_events_by_month month_session 2 (Some 2024) 2026
       = Inr [month_event ''a'' (Some (2024, 2, 1)) (Some (9, 0, 0)),
              month_event ''b'' (Some (2024, 2, 1)) (Some (9, 0, 0)),
              month_event ''b'' (Some (2024, 2, 29)) None,
              month_event ''c'' (Some (2024, 2, 29)) (Some (9, 0, 0))]"
    by code_simp
  from get_events_by_month_spec [OF h, of month_session 2026] h l v
  show ?thesis by blast
qed

section \<open>Properties of the tag replacement\<close>

lemma session_commit_ok:
  "commit_succeeds s \<Longrightarrow>
     session_commit s = (Inr (), s\<lparr>stored := view s, faults := tl (faults s)\<rparr>)"
  by (auto simp: commit_succeeds_def session_commit_def split: list.splits option.splits)

lemma session_commit_fails:
  "faults s = Some e # fs \<Longrightarrow> session_commit s = (Inl e, s\<lparr>faults := fs\<rparr>)"
  by (simp add: session_commit_def)

lemma session_commit_Inr:
  "session_commit s = (Inr u, s') \<Longrightarrow> commit_succeeds s"
  by (auto simp: commit_succeeds_def session_commit_def split: list.splits option.splits)

lemma fold_session_add_tags:
  "fold session_add (map MEventTag ts) s
     = s\<lparr>view := (view s)\<lparr>EventTag_table := EventTag_table (view s) @ ts\<rparr>\<rparr>"
  by (induction ts arbitrary: s) (simp_all add: session_add_def Let_def)

lemma add_event_tags_ok:
  assumes "commit_succeeds s"
  shows "add_event_tags s event_id event_tags =
     (Inr (),
      s\<lparr>stored := (view s)\<lparr>EventTag_table :=
             filter (\<lambda>t. EventTag_event_id t \<noteq> event_id) (EventTag_table (view s))
             @ map (\<lambda>tag. \<lparr>EventTag_event_id = event_id, EventTag_event_tag = tag\<rparr>) event_tags\<rparr>,
        view := (view s)\<lparr>EventTag_table :=
             filter (\<lambda>t. EventTag_event_id t \<noteq> event_id) (EventTag_table (view s))
             @ map (\<lambda>tag. \<lparr>EventTag_event_id = event_id, EventTag_event_tag = tag\<rparr>) event_tags\<rparr>,
        faults := tl (faults s)\<rparr>)"
proof -
  let ?s2 = "s\<lparr>view := (view s)\<lparr>EventTag_table :=
             filter (\<lambda>t. EventTag_event_id t \<noteq> event_id) (EventTag_table (view s))
             @ map (\<lambda>tag. \<lparr>EventTag_event_id = event_id, EventTag_event_tag = tag\<rparr>) event_tags\<rparr>\<rparr>"
  have "commit_succeeds ?s2" using assms by (simp add: commit_succeeds_def)
  then have "session_commit ?s2 = (Inr (), ?s2\<lparr>stored := view ?s2, faults := tl (faults ?s2)\<rparr>)"
    by (rule session_commit_ok)
  then show ?thesis
    by (simp add: add_event_tags_def fold_session_add_tags Let_def)
qed

lemma add_event_tags_returns:
  "fst (add_event_tags s event_id event_tags) = Inr () \<longleftrightarrow> commit_succeeds s"
proof
  assume "commit_succeeds s"
  then show "fst (add_event_tags s event_id event_tags) = Inr ()"
    by (simp add: add_event_tags_ok)
next
  assume a: "fst (add_event_tags s event_id event_tags) = Inr ()"
  obtain r s' where r: "add_event_tags s event_id event_tags = (r, s')"
    by (cases "add_event_tags s event_id event_tags")
  with a have "add_event_tags s event_id event_tags = (Inr (), s')" by simp
  then have "commit_succeeds (s\<lparr>view := (view s)\<lparr>EventTag_table :=
             filter (\<lambda>t. EventTag_event_id t \<noteq> event_id) (EventTag_table (view s))
             @ map (\<lambda>tag. \<lparr>EventTag_event_id = event_id, EventTag_event_tag = tag\<rparr>) event_tags\<rparr>\<rparr>)"
    by (auto simp: add_event_tags_def fold_session_add_tags Let_def intro: session_commit_Inr)
  then show "commit_succeeds s" by (simp add: commit_succeeds_def)
qed

text \<open>
  Claim C3. When \<^verbatim>\<open>add_event_tags\<close> returns, the stored tag rows of the event are exactly
  the rows made from the given list, in its order, so the set of the event's tags is the
  set of the list; the tag rows of the other events are those the session saw before, and
  nothing is left uncommitted. The call returns whenever the store accepts the commit.
\<close>

theorem add_event_tags_replaces:
  "(add_event_tags s event_id event_tags = (Inr (), s') \<longrightarrow>
      filter (\<lambda>t. EventTag_event_id t = event_id) (EventTag_table (stored s'))
        = map (\<lambda>tag. \<lparr>EventTag_event_id = event_id, EventTag_event_tag = tag\<rparr>) event_tags
      \<and> EventTag_event_tag ` {t \<in> set (EventTag_table (stored s')). EventTag_event_id t = event_id}
        = set event_tags
      \<and> filter (\<lambda>t. EventTag_event_id t \<noteq> event_id) (EventTag_table (stored s'))
        = filter (\<lambda>t. EventTag_event_id t \<noteq> event_id) (EventTag_table (view s))
      \<and> view s' = stored s')
   \<and> (commit_succeeds s \<longrightarrow> fst (add_event_tags s event_id event_tags) = Inr ())"
proof (intro conjI impI)
  assume r: "add_event_tags s event_id event_tags = (Inr (), s')"
  then have "fst (add_event_tags s event_id event_tags) = Inr ()" by simp
  then have ok: "commit_succeeds s" by (simp add: add_event_tags_returns)
  let ?new = "map (\<lambda>tag. \<lparr>EventTag_event_id = event_id, EventTag_event_tag = tag\<rparr>) event_tags"
  let ?old = "filter (\<lambda>t. EventTag_event_id t \<noteq> event_id) (EventTag_table (view s))"
  from r ok have st: "EventTag_table (stored s') = ?old @ ?new" and vw: "view s' = stored s'"
    by (auto simp: add_event_tags_ok)
  have f1: "filter (\<lambda>t. EventTag_event_id t = event_id) ?old = []"
    by (induction "EventTag_table (view s)") auto
  have f2: "filter (\<lambda>t. EventTag_event_id t = event_id) ?new = ?new"
    by (induction event_tags) auto
  have f3: "filter (\<lambda>t. EventTag_event_id t \<noteq> event_id) ?new = []"
    by (induction event_tags) auto
  show a: "filter (\<lambda>t. EventTag_event_id t = event_id) (EventTag_table (stored s')) = ?new"
    by (simp only: st filter_append f1 f2 append_Nil)
  have "EventTag_event_tag ` {t \<in> set (EventTag_table (stored s')). EventTag_event_id t = event_id}
          = set (map EventTag_event_tag
                   (filter (\<lambda>t. EventTag_event_id t = event_id) (EventTag_table (stored s'))))"
    by auto
  also have "\<dots> = set event_tags"
    by (simp only: a) (simp add: comp_def)
  finally show "EventTag_event_tag ` {t \<in> set (EventTag_table (stored s')). EventTag_event_id t = event_id}
        = set event_tags" .
  show "filter (\<lambda>t. EventTag_event_id t \<noteq> event_id) (EventTag_table (stored s')) = ?old"
    by (simp only: st filter_append f3) simp
  show "view s' = stored s'" by (rule vw)
next
  assume "commit_succeeds s"
  then show "fst (add_event_tags s event_id event_tags) = Inr ()"
    by (simp add: add_event_tags_returns)
qed

theorem add_event_tags_replaces_witness:
  "add_event_tags (tag_session [tag_row 7 1, tag_row 8 1, tag_row 7 2] []) 7 [3]
     = (Inr (), tag_session [tag_row 8 1, tag_row 7 3] [])
   \<and> filter (\<lambda>t. EventTag_event_id t = 7)
        (EventTag_table (stored (tag_session [tag_row 8 1, tag_row 7 3] []))) = [tag_row 7 3]
   \<and> commit_succeeds (tag_session [tag_row 7 1, tag_row 8 1, tag_row 7 2] [])
   \<and> add_event_tags (tag_session [] []) 7 [1, 2] = (Inr (), tag_session [tag_row 7 1, tag_row 7 2] [])
   \<and> add_event_tags (tag_session [tag_row 7 1, tag_row 7 2] []) 7 [3]
       = (Inr (), tag_session [tag_row 7 3] [])"
proof -
  have r: "add_event_tags (tag_session [tag_row 7 1, tag_row 8 1, tag_row 7 2] []) 7 [3]
     = (Inr (), tag_session [tag_row 8 1, tag_row 7 3] [])"
    by code_simp
  have c: "commit_succeeds (tag_session [tag_row 7 1, tag_row 8 1, tag_row 7 2] [])"
    by code_simp
  have t: "map (\<lambda>tag. \<lparr>EventTag_event_id = 7, EventTag_event_tag = tag\<rparr>) [3] = [tag_row 7 3]"
    by (simp add: tag_row_def)
  have r2: "add_event_tags (tag_session [] []) 7 [1, 2]
      = (Inr (), tag_session [tag_row 7 1, tag_row 7 2] [])"
    "add_event_tags (tag_session [tag_row 7 1, tag_row 7 2] []) 7 [3]
       = (Inr (), tag_session [tag_row 7 3] [])"
    by code_simp+
  from add_event_tags_replaces [of "tag_session [tag_row 7 1, tag_row 8 1, tag_row 7 2] []" 7 "[3]"
      "tag_session [tag_row 8 1, tag_row 7 3] []"] r c t r2
  show ?thesis by simp
qed

section \<open>Properties of adding users\<close>

lemma add_to_db_no_callback:
  "add_to_db s obj others None =
     (case add_attempt obj others s of
        (Inr u, s1) \<Rightarrow> (Inr True, s1)
      | (Inl e, s1) \<Rightarrow>
          if e = IntegrityError then (Inr False, session_rollback s1) else (Inl e, s1))"
  by (auto simp: add_to_db_def MAX_COMMIT_RETRIES_def add_to_db_loop_success
        add_to_db_loop_other_error add_to_db_loop_conflict_None
      split: prod.splits sum.splits)

lemma add_attempt_user_ok:
  assumes "commit_succeeds s"
  shows "add_attempt (MUser \<lparr>User_id = None, User_email = email, User_user_privilege = p\<rparr>) None s
    = (Inr (),
       s\<lparr>stored := (view s)\<lparr>User_table := User_table (view s) @
              [\<lparr>User_id = Some (generated_id (map User_id (User_table (view s)))),
                User_email = email, User_user_privilege = p\<rparr>]\<rparr>,
         view := (view s)\<lparr>User_table := User_table (view s) @
              [\<lparr>User_id = Some (generated_id (map User_id (User_table (view s)))),
                User_email = email, User_user_privilege = p\<rparr>]\<rparr>,
         faults := tl (faults s)\<rparr>)"
proof -
  let ?s1 = "s\<lparr>view := (view s)\<lparr>User_table := User_table (view s) @
              [\<lparr>User_id = Some (generated_id (map User_id (User_table (view s)))),
                User_email = email, User_user_privilege = p\<rparr>]\<rparr>\<rparr>"
  have "commit_succeeds ?s1" using assms by (simp add: commit_succeeds_def)
  then have "session_commit ?s1 = (Inr (), ?s1\<lparr>stored := view ?s1, faults := tl (faults ?s1)\<rparr>)"
    by (rule session_commit_ok)
  then show ?thesis
    by (simp add: add_attempt_def session_add_def Let_def)
qed

lemma add_attempt_fails:
  assumes "faults s = Some e # fs"
  shows "add_attempt obj None s = (Inl e, (session_add obj s)\<lparr>faults := fs\<rparr>)"
proof -
  have "faults (session_add obj s) = Some e # fs"
    using assms by (simp add: session_add_def Let_def split: model.splits)
  then show ?thesis
    by (simp add: add_attempt_def Let_def session_commit_fails)
qed

lemma add_attempt_Inr:
  "add_attempt obj None s = (Inr u, s1) \<Longrightarrow> commit_succeeds s"
proof -
  assume "add_attempt obj None s = (Inr u, s1)"
  then have "commit_succeeds (session_add obj s)"
    by (auto simp: add_attempt_def Let_def intro: session_commit_Inr)
  then show ?thesis
    by (simp add: commit_succeeds_def session_add_def Let_def split: model.splits)
qed

lemma rollback_after_add:
  "session_rollback ((session_add obj s)\<lparr>faults := fs\<rparr>) = s\<lparr>view := stored s, faults := fs\<rparr>"
  by (simp add: session_rollback_def session_add_def Let_def split: model.splits)

lemma add_user_existing:
  "find (\<lambda>u. User_email u = email) (User_table (view s)) = Some curr_user \<Longrightarrow>
     add_user s email p = (Inr (User_id curr_user), s)"
  by (simp add: add_user_def)

lemma add_user_new:
  assumes "find (\<lambda>u. User_email u = email) (User_table (view s)) = None"
    and "commit_succeeds s"
  shows "add_user s email p =
     (Inr (Some (generated_id (map User_id (User_table (view s))))),
       s\<lparr>stored := (view s)\<lparr>User_table := User_table (view s) @
              [\<lparr>User_id = Some (generated_id (map User_id (User_table (view s)))),
                User_email = email, User_user_privilege = p\<rparr>]\<rparr>,
         view := (view s)\<lparr>User_table := User_table (view s) @
              [\<lparr>User_id = Some (generated_id (map User_id (User_table (view s)))),
                User_email = email, User_user_privilege = p\<rparr>]\<rparr>,
         faults := tl (faults s)\<rparr>)"
  using assms
  by (simp add: add_user_def add_to_db_no_callback add_attempt_user_ok new_user_id_def)

lemma add_user_conflict:
  assumes "find (\<lambda>u. User_email u = email) (User_table (view s)) = None"
    and "faults s = Some IntegrityError # fs"
  shows "add_user s email p = (Inr None, s\<lparr>view := stored s, faults := fs\<rparr>)"
  using assms
  by (simp add: add_user_def add_to_db_no_callback add_attempt_fails rollback_after_add)

lemma add_user_Some_new:
  assumes "find (\<lambda>u. User_email u = email) (User_table (view s)) = None"
    and "add_user s email p = (Inr (Some i), s1)"
  shows "commit_succeeds s"
proof (rule ccontr)
  assume "\<not> commit_succeeds s"
  then obtain e fs where f: "faults s = Some e # fs"
    by (auto simp: commit_succeeds_def split: list.splits option.splits)
  show False
    using assms f
    by (auto simp: add_user_def Let_def add_to_db_no_callback add_attempt_fails split: if_splits)
qed

lemma find_append_new:
  "find P xs = None \<Longrightarrow> P x \<Longrightarrow> find P (xs @ [x]) = Some x"
  by (induction xs) (auto split: if_splits)

lemma filter_find_None:
  "find P xs = None \<Longrightarrow> filter P xs = []"
  by (induction xs) (auto split: if_splits)

lemma filter_find_Some:
  "find P xs = Some x \<Longrightarrow> 1 \<le> length (filter P xs)"
  by (induction xs) (auto split: if_splits)

text \<open>
  Claim C4. If a row with the given email exists, \<^verbatim>\<open>add_user\<close> returns its id and changes
  nothing. A call that has returned an id, repeated with the same email in the state it
  left, returns the same id and changes nothing; and if at most one row had the email
  before, exactly one has it afterwards. If no row has the email, the call appends one row
  with a generated id and returns that id when the store accepts the commit, and returns
  \<open>None\<close> after a rollback when the commit raises \<^verbatim>\<open>IntegrityError\<close>.
\<close>

theorem add_user_idempotent:
  "(find (\<lambda>u. User_email u = email) (User_table (view s)) = Some curr_user \<longrightarrow>
      add_user s email p = (Inr (User_id curr_user), s))
   \<and> (add_user s email p = (Inr (Some i), s1) \<longrightarrow>
      add_user s1 email p' = (Inr (Some i), s1))
   \<and> (add_user s email p = (Inr (Some i), s1)
        \<and> length (filter (\<lambda>u. User_email u = email) (User_table (view s))) \<le> 1 \<longrightarrow>
      length (filter (\<lambda>u. User_email u = email) (User_table (view s1))) = 1)
   \<and> (find (\<lambda>u. User_email u = email) (User_table (view s)) = None \<and> commit_succeeds s \<longrightarrow>
      fst (add_user s email p) = Inr (Some (generated_id (map User_id (User_table (view s)))))
      \<and> User_table (view (snd (add_user s email p)))
          = User_table (view s) @
              [\<lparr>User_id = Some (generated_id (map User_id (User_table (view s)))),
                User_email = email, User_user_privilege = p\<rparr>]
      \<and> stored (snd (add_user s email p)) = view (snd (add_user s email p)))
   \<and> (find (\<lambda>u. User_email u = email) (User_table (view s)) = None
        \<and> faults s = Some IntegrityError # fs \<longrightarrow>
      add_user s email p = (Inr None, s\<lparr>view := stored s, faults := fs\<rparr>))"
proof -
  let ?P = "\<lambda>u. User_email u = email"
  let ?row = "\<lparr>User_id = Some (generated_id (map User_id (User_table (view s)))),
                User_email = email, User_user_privilege = p\<rparr>"
  have twice: "add_user s1 email p' = (Inr (Some i), s1)
      \<and> (length (filter ?P (User_table (view s))) \<le> 1 \<longrightarrow>
           length (filter ?P (User_table (view s1))) = 1)"
    if r: "add_user s email p = (Inr (Some i), s1)"
  proof (cases "find ?P (User_table (view s))")
    case (Some u)
    with r have "s1 = s" "User_id u = Some i" by (simp_all add: add_user_existing)
    with Some filter_find_Some [OF Some] show ?thesis
      by (auto simp: add_user_existing)
  next
    case None
    from add_user_Some_new [OF None r] have ok: "commit_succeeds s" .
    from r add_user_new [OF None ok, of p]
    have i: "i = generated_id (map User_id (User_table (view s)))"
      and t: "User_table (view s1) = User_table (view s) @ [?row]"
      by auto
    have "find ?P (User_table (view s1)) = Some ?row"
      unfolding t using None by (intro find_append_new) simp_all
    then have "add_user s1 email p' = (Inr (Some i), s1)"
      by (simp add: add_user_existing i)
    moreover have "length (filter ?P (User_table (view s1))) = 1"
      unfolding t by (simp add: filter_find_None [OF None])
    ultimately show ?thesis by simp
  qed
  show ?thesis
  proof (intro conjI impI)
    assume "find ?P (User_table (view s)) = Some curr_user"
    then show "add_user s email p = (Inr (User_id curr_user), s)"
      by (rule add_user_existing)
  next
    assume "add_user s email p = (Inr (Some i), s1)"
    then show "add_user s1 email p' = (Inr (Some i), s1)"
      using twice by blast
  next
    assume "add_user s email p = (Inr (Some i), s1)
        \<and> length (filter ?P (User_table (view s))) \<le> 1"
    then show "length (filter ?P (User_table (view s1))) = 1"
      using twice by blast
  next
    assume a: "find ?P (User_table (view s)) = None \<and> commit_succeeds s"
    then show "fst (add_user s email p)
         = Inr (Some (generated_id (map User_id (User_table (view s)))))"
      and "User_table (view (snd (add_user s email p))) = User_table (view s) @ [?row]"
      and "stored (snd (add_user s email p)) = view (snd (add_user s email p))"
      by (simp_all add: add_user_new)
  next
    assume "find ?P (User_table (view s)) = None \<and> faults s = Some IntegrityError # fs"
    then show "add_user s email p = (Inr None, s\<lparr>view := stored s, faults := fs\<rparr>)"
      by (simp add: add_user_conflict)
  qed
qed

theorem add_user_idempotent_witness:
  "find (\<lambda>u. User_email u = ''ann'') (User_table (view (user_session [user_row 1 ''ann'' 0] [])))
     = Some (user_row 1 ''ann'' 0)
   \<and> add_user (user_session [user_row 1 ''ann'' 0] []) ''ann'' 0
       = (Inr (Some 1), user_session [user_row 1 ''ann'' 0] [])
   \<and> find (\<lambda>u. User_email u = ''bob'') (User_table (view (user_session [user_row 1 ''ann'' 0] [])))
       = None
   \<and> commit_succeeds (user_session [user_row 1 ''ann'' 0] [])
   \<and> add_user (user_session [user_row 1 ''ann'' 0] []) ''bob'' 0
       = (Inr (Some 2), user_session [user_row 1 ''ann'' 0, user_row 2 ''bob'' 0] [])
   \<and> add_user (user_session [user_row 1 ''ann'' 0, user_row 2 ''bob'' 0] []) ''bob'' 1
       = (Inr (Some 2), user_session [user_row 1 ''ann'' 0, user_row 2 ''bob'' 0] [])
   \<and> length (filter (\<lambda>u. User_email u = ''bob'')
        (User_table (view (user_session [user_row 1 ''ann'' 0, user_row 2 ''bob'' 0] [])))) = 1
   \<and> add_user (user_session [user_row 1 ''ann'' 0] [Some IntegrityError]) ''bob'' 0
       = (Inr None, user_session [user_row 1 ''ann'' 0] [])"
proof -
  let ?s0 = "user_session [user_row 1 ''ann'' 0] []"
  let ?s1 = "user_session [user_row 1 ''ann'' 0, user_row 2 ''bob'' 0] []"
  let ?sc = "user_session [user_row 1 ''ann'' 0] [Some IntegrityError]"
  have f1: "find (\<lambda>u. User_email u = ''ann'') (User_table (view ?s0)) = Some (user_row 1 ''ann'' 0)"
    by code_simp
  have i1: "User_id (user_row 1 ''ann'' 0) = Some 1"
    by (simp add: user_row_def)
  have f2: "find (\<lambda>u. User_email u = ''bob'') (User_table (view ?s0)) = None"
    by code_simp
  have c: "commit_succeeds ?s0"
    by code_simp
  have r: "add_user ?s0 ''bob'' 0 = (Inr (Some 2), ?s1)"
    by code_simp
  have l: "length (filter (\<lambda>u. User_email u = ''bob'') (User_table (view ?s0))) \<le> 1"
    by code_simp
  have f3: "find (\<lambda>u. User_email u = ''bob'') (User_table (view ?sc)) = None"
    "faults ?sc = Some IntegrityError # []"
    "?sc\<lparr>view := stored ?sc, faults := []\<rparr> = ?s0"
    by code_simp+
  have a: "add_user ?s0 ''ann'' 0 = (Inr (Some 1), ?s0)"
    using add_user_idempotent [where s = ?s0 and email = "''ann''"
        and curr_user = "user_row 1 ''ann'' 0" and p = 0] f1 i1
    by simp
  have b: "add_user ?s1 ''bob'' 1 = (Inr (Some 2), ?s1)
      \<and> length (filter (\<lambda>u. User_email u = ''bob'') (User_table (view ?s1))) = 1"
    using add_user_idempotent [where s = ?s0 and email = "''bob''" and p = 0 and i = 2
        and ?s1.0 = ?s1 and p' = 1] r l
    by blast
  have d: "add_user ?sc ''bob'' 0 = (Inr None, ?s0)"
    using add_user_idempotent [where s = ?sc and email = "''bob''" and p = 0 and fs = "[]"] f3
    by simp
  from f1 f2 c r a b d show ?thesis by blast
qed

section \<open>Properties of adding club members\<close>















section \<open>Properties of updating events\<close>

lemma keeps_owners_refl: "keeps_owners s s"
  by (simp add: keeps_owners_def)

lemma keeps_owners_trans: "keeps_owners s s1 \<Longrightarrow> keeps_owners s1 s2 \<Longrightarrow> keeps_owners s s2"
  by (auto simp: keeps_owners_def)

lemma owners_update_first:
  assumes "\<And>e. Event_id (f e) = Event_id e \<and> Event_user_id (f e) = Event_user_id e
              \<and> Event_club_id (f e) = Event_club_id e"
  shows "map (\<lambda>e. (Event_id e, Event_user_id e, Event_club_id e)) (update_first P f xs)
           = map (\<lambda>e. (Event_id e, Event_user_id e, Event_club_id e)) xs"
  by (induction xs) (simp_all add: assms)

lemma keeps_owners_set_event_attr:
  assumes "keeps_owner_fields f"
  shows "keeps_owners s (snd (set_event_attr event_id f s))"
proof -
  have "owners ((view s)\<lparr>Event_table :=
          update_first (\<lambda>e. Event_id e = Some event_id) f (Event_table (view s))\<rparr>)
        = owners (view s)"
    using assms by (simp add: owners_def keeps_owner_fields_def owners_update_first)
  then show ?thesis
    by (simp add: set_event_attr_def keeps_owners_def Let_def split: list.splits option.splits)
qed

lemma keeps_owners_assign_all:
  "list_all keeps_owner_fields fs \<Longrightarrow> keeps_owners s (snd (assign_all event_id fs s))"
proof (induction fs arbitrary: s)
  case Nil
  then show ?case by (simp add: keeps_owners_refl)
next
  case (Cons f fs)
  obtain r s1 where r: "set_event_attr event_id f s = (r, s1)"
    by (cases "set_event_attr event_id f s")
  from Cons.prems have f: "keeps_owner_fields f" and fs: "list_all keeps_owner_fields fs"
    by simp_all
  from keeps_owners_set_event_attr [OF f, of s event_id] r have k1: "keeps_owners s s1"
    by simp
  show ?case
  proof (cases r)
    case (Inl e)
    with r k1 show ?thesis by simp
  next
    case (Inr u)
    with r have "snd (assign_all event_id (f # fs) s) = snd (assign_all event_id fs s1)"
      by simp
    with keeps_owners_trans [OF k1 Cons.IH [OF fs]] show ?thesis by simp
  qed
qed

lemma keeps_owners_commit: "keeps_owners s (snd (session_commit s))"
  by (simp add: session_commit_def keeps_owners_def split: list.splits option.splits)

lemma keeps_owners_rollback: "keeps_owners s (session_rollback s)"
  by (simp add: session_rollback_def keeps_owners_def)

lemma keeps_owners_add_event_tags: "keeps_owners s (snd (add_event_tags s event_id event_tags))"
proof -
  let ?s2 = "s\<lparr>view := (view s)\<lparr>EventTag_table :=
      filter (\<lambda>t. EventTag_event_id t \<noteq> event_id) (EventTag_table (view s))
      @ map (\<lambda>tag. \<lparr>EventTag_event_id = event_id, EventTag_event_tag = tag\<rparr>) event_tags\<rparr>\<rparr>"
  have "keeps_owners s ?s2"
    by (simp add: keeps_owners_def owners_def)
  moreover have "keeps_owners ?s2 (snd (session_commit ?s2))"
    by (rule keeps_owners_commit)
  moreover have "add_event_tags s event_id event_tags = session_commit ?s2"
    by (simp add: add_event_tags_def fold_session_add_tags Let_def)
  ultimately show ?thesis
    using keeps_owners_trans by simp
qed

lemma keeps_owners_update_event:
  "keeps_owners s (snd (update_event s event_id title description event_tags start_date end_date
       start_time end_time description_html club_id location cta_link))"
proof (cases "find (\<lambda>e. Event_id e = Some event_id) (Event_table (view s))")
  case None
  then show ?thesis by (simp add: update_event_def keeps_owners_refl)
next
  case (Some event)
  let ?fs = "[\<lambda>e. e\<lparr>Event_title := title\<rparr>,
              \<lambda>e. e\<lparr>Event_description := description\<rparr>,
              \<lambda>e. e\<lparr>Event_description_html := description_html\<rparr>,
              \<lambda>e. e\<lparr>Event_location := location\<rparr>,
              \<lambda>e. e\<lparr>Event_start_date := start_date\<rparr>,
              \<lambda>e. e\<lparr>Event_end_date := end_date\<rparr>,
              \<lambda>e. e\<lparr>Event_start_time := start_time\<rparr>,
              \<lambda>e. e\<lparr>Event_end_time := end_time\<rparr>,
              \<lambda>e. e\<lparr>Event_cta_link := cta_link\<rparr>]"
  obtain r s1 where a: "assign_all event_id ?fs s = (r, s1)"
    by (cases "assign_all event_id ?fs s")
  have "list_all keeps_owner_fields ?fs"
    by (simp add: keeps_owner_fields_def)
  from keeps_owners_assign_all [OF this, of s event_id] a have k1: "keeps_owners s s1"
    by simp
  have k2: "keeps_owners s (session_rollback s1)"
    using keeps_owners_trans [OF k1 keeps_owners_rollback] .
  have k3: "keeps_owners s (snd (session_commit s1))"
    using keeps_owners_trans [OF k1 keeps_owners_commit] .
  have k4: "keeps_owners s s3"
    if "add_event_tags (session_rollback s1) event_id tags = (rt, s3)" for tags rt s3
    using keeps_owners_trans [OF k2 keeps_owners_add_event_tags [of _ event_id tags]] that
    by simp
  have k5: "keeps_owners s s3"
    if "session_commit s1 = (rc, s2)" "add_event_tags s2 event_id tags = (rt, s3)"
    for tags rc s2 rt s3
    using keeps_owners_trans [OF k3 keeps_owners_add_event_tags [of _ event_id tags]] that
    by simp
  have k3': "keeps_owners s s2" if "session_commit s1 = (rc, s2)" for rc s2
    using k3 that by simp
  show ?thesis
    using Some a k2 k3' k4 k5
    by (auto simp: update_event_def simp del: assign_all.simps
          split: sum.splits option.splits prod.splits)
qed

text \<open>
  Claim C9. Whatever arguments \<^verbatim>\<open>update_event\<close> receives, \<^verbatim>\<open>club_id\<close> among them, and whatever
  the store answers, the ids, owning users and clubs of the events afterwards, in the view
  and in the store, are those the session held before the call (in its view or in its
  store). For a session that enters the call with nothing uncommitted, the stored
  \<^verbatim>\<open>user_id\<close> and \<^verbatim>\<open>club_id\<close> of every event are therefore unchanged.
\<close>

theorem update_event_keeps_owner:
  "owners (view (snd (update_event s event_id title description event_tags start_date end_date
       start_time end_time description_html club_id location cta_link)))
     \<in> {owners (view s), owners (stored s)}
   \<and> owners (stored (snd (update_event s event_id title description event_tags start_date
       end_date start_time end_time description_html club_id location cta_link)))
     \<in> {owners (view s), owners (stored s)}
   \<and> (view s = stored s \<longrightarrow>
        owners (view (snd (update_event s event_id title description event_tags start_date
          end_date start_time end_time description_html club_id location cta_link)))
          = owners (stored s)
        \<and> owners (stored (snd (update_event s event_id title description event_tags start_date
          end_date start_time end_time description_html club_id location cta_link)))
          = owners (stored s))"
  using keeps_owners_update_event [of s event_id title description event_tags start_date end_date
      start_time end_time description_html club_id location cta_link]
  by (auto simp: keeps_owners_def)

theorem update_event_keeps_owner_witness:
  "view (event_session [full_event] []) = stored (event_session [full_event] [])
   \<and> owners (stored (event_session [full_event] [])) = [(Some 7, Some 2, Some 5)]
   \<and> fst (update_event (event_session [full_event] []) 7 ''Party'' ''new'' (Some [4]) None None
        None None None (Some 99) None None) = Inr True
   \<and> owners (stored (snd (update_event (event_session [full_event] []) 7 ''Party'' ''new''
        (Some [4]) None None None None None (Some 99) None None))) = [(Some 7, Some 2, Some 5)]
   \<and> owners (view (snd (update_event (event_session [full_event] []) 7 ''Party'' ''new''
        (Some [4]) None None None None None (Some 99) None None))) = [(Some 7, Some 2, Some 5)]"
proof -
  let ?s = "event_session [full_event] []"
  have c: "view ?s = stored ?s"
    by (simp add: event_session_def)
  have o: "owners (stored ?s) = [(Some 7, Some 2, Some 5)]"
    by code_simp
  have r: "fst (update_event ?s 7 ''Party'' ''new'' (Some [4]) None None
        None None None (Some 99) None None) = Inr True"
    by code_simp
  from update_event_keeps_owner [of ?s 7 "''Party''" "''new''" "Some [4]" None None None None None
      "Some 99" None None] c o r
  show ?thesis by simp
qed

lemma find_update_first_map:
  assumes "\<And>x. P (f x) = P x"
  shows "find P (update_first P f xs) = map_option f (find P xs)"
  by (induction xs) (simp_all add: assms)

lemma set_event_attr_ok:
  assumes "commit_succeeds s"
  shows "set_event_attr event_id f s =
     (Inr (), s\<lparr>view := (view s)\<lparr>Event_table :=
                  update_first (\<lambda>e. Event_id e = Some event_id) f (Event_table (view s))\<rparr>,
              faults := tl (faults s)\<rparr>)"
  using assms
  by (auto simp: set_event_attr_def commit_succeeds_def Let_def split: list.splits option.splits)

lemma no_fault_step:
  assumes "\<forall>f \<in> set (take (Suc n) (faults s)). f = None"
  shows "commit_succeeds s" and "\<forall>f \<in> set (take n (tl (faults s))). f = None"
  using assms by (cases "faults s"; auto simp: commit_succeeds_def)+

lemma assign_all_ok:
  assumes "\<forall>f \<in> set (take (length fs) (faults s)). f = None"
  shows "assign_all event_id fs s =
     (Inr (), s\<lparr>view := (view s)\<lparr>Event_table :=
                  foldl (\<lambda>t f. update_first (\<lambda>e. Event_id e = Some event_id) f t)
                    (Event_table (view s)) fs\<rparr>,
              faults := drop (length fs) (faults s)\<rparr>)"
  using assms
proof (induction fs arbitrary: s)
  case Nil
  then show ?case by simp
next
  case (Cons f fs)
  let ?s1 = "s\<lparr>view := (view s)\<lparr>Event_table :=
                  update_first (\<lambda>e. Event_id e = Some event_id) f (Event_table (view s))\<rparr>,
              faults := tl (faults s)\<rparr>"
  from Cons.prems have "\<forall>f \<in> set (take (Suc (length fs)) (faults s)). f = None" by simp
  from no_fault_step [OF this]
  have ok: "commit_succeeds s" and rest: "\<forall>f \<in> set (take (length fs) (tl (faults s))). f = None"
    by simp_all
  have "assign_all event_id (f # fs) s = assign_all event_id fs ?s1"
    by (simp add: set_event_attr_ok [OF ok])
  also have "\<dots> = (Inr (), ?s1\<lparr>view := (view ?s1)\<lparr>Event_table :=
                  foldl (\<lambda>t f. update_first (\<lambda>e. Event_id e = Some event_id) f t)
                    (Event_table (view ?s1)) fs\<rparr>,
              faults := drop (length fs) (faults ?s1)\<rparr>)"
    by (rule Cons.IH) (use rest in simp)
  finally show ?case
    by (simp add: drop_Suc)
qed

lemma add_event_tags_Event_table:
  "view s = stored s \<Longrightarrow>
     Event_table (stored (snd (add_event_tags s event_id event_tags))) = Event_table (stored s)"
  by (simp add: add_event_tags_def fold_session_add_tags Let_def session_commit_def
      split: list.splits option.splits)

text \<open>
  Claim C10. When the event exists and none of the nine assignments nor the commit raises,
  the stored event afterwards has its title, description and seven optional fields equal
  to the arguments of the call, and the other fields as before. An optional argument left
  at its default \<^verbatim>\<open>None\<close> therefore stores \<^verbatim>\<open>None\<close>, whatever the field held. Without a tag
  list the call returns \<open>True\<close>.
\<close>

theorem update_event_overwrites:
  "find (\<lambda>e. Event_id e = Some event_id) (Event_table (view s)) = Some event
   \<and> (\<forall>f \<in> set (take 10 (faults s)). f = None) \<longrightarrow>
     find (\<lambda>e. Event_id e = Some event_id)
       (Event_table (stored (snd (update_event s event_id title description event_tags start_date
          end_date start_time end_time description_html club_id location cta_link))))
       = Some (event\<lparr>Event_title := title, Event_description := description,
                 Event_description_html := description_html, Event_location := location,
                 Event_start_date := start_date, Event_end_date := end_date,
                 Event_start_time := start_time, Event_end_time := end_time,
                 Event_cta_link := cta_link\<rparr>)
     \<and> (event_tags = None \<longrightarrow>
          fst (update_event s event_id title description event_tags start_date
            end_date start_time end_time description_html club_id location cta_link) = Inr True)"
proof (intro impI)
  let ?P = "\<lambda>e. Event_id e = Some event_id"
  let ?fs = "[\<lambda>e. e\<lparr>Event_title := title\<rparr>,
              \<lambda>e. e\<lparr>Event_description := description\<rparr>,
              \<lambda>e. e\<lparr>Event_description_html := description_html\<rparr>,
              \<lambda>e. e\<lparr>Event_location := location\<rparr>,
              \<lambda>e. e\<lparr>Event_start_date := start_date\<rparr>,
              \<lambda>e. e\<lparr>Event_end_date := end_date\<rparr>,
              \<lambda>e. e\<lparr>Event_start_time := start_time\<rparr>,
              \<lambda>e. e\<lparr>Event_end_time := end_time\<rparr>,
              \<lambda>e. e\<lparr>Event_cta_link := cta_link\<rparr>]"
  let ?new = "event\<lparr>Event_title := title, Event_description := description,
                 Event_description_html := description_html, Event_location := location,
                 Event_start_date := start_date, Event_end_date := end_date,
                 Event_start_time := start_time, Event_end_time := end_time,
                 Event_cta_link := cta_link\<rparr>"
  assume a: "find ?P (Event_table (view s)) = Some event
     \<and> (\<forall>f \<in> set (take 10 (faults s)). f = None)"
  then have found: "find ?P (Event_table (view s)) = Some event"
    and nf: "\<forall>f \<in> set (take 10 (faults s)). f = None" by simp_all
  have len: "length ?fs = 9" by simp
  have "set (take 9 (faults s)) \<subseteq> set (take 10 (faults s))"
    by (rule set_take_subset_set_take) simp
  with nf have "\<forall>f \<in> set (take 9 (faults s)). f = None" by blast
  then have nine: "\<forall>f \<in> set (take (length ?fs) (faults s)). f = None"
    unfolding len .
  define tbl where "tbl = foldl (\<lambda>t f. update_first ?P f t) (Event_table (view s)) ?fs"
  define s1 where "s1 = s\<lparr>view := (view s)\<lparr>Event_table := tbl\<rparr>, faults := drop 9 (faults s)\<rparr>"
  have as: "assign_all event_id ?fs s = (Inr (), s1)"
    using assign_all_ok [OF nine, of event_id] unfolding len by (simp add: s1_def tbl_def)
  have ft: "find ?P tbl = Some ?new"
    unfolding tbl_def by (simp add: find_update_first_map found)
  have ok1: "commit_succeeds s1"
  proof (cases "drop 9 (faults s)")
    case Nil
    then show ?thesis by (simp add: commit_succeeds_def s1_def)
  next
    case (Cons x xs)
    then have "x = faults s ! 9" and "9 < length (faults s)"
      by (metis nth_via_drop, metis drop_eq_Nil2 list.distinct(1) not_le_imp_less)
    then have "x \<in> set (take 10 (faults s))"
      by (auto simp: in_set_conv_nth intro!: exI [of _ 9])
    with nf have "x = None" by simp
    with Cons show ?thesis by (simp add: commit_succeeds_def s1_def)
  qed
  define s2 where "s2 = s1\<lparr>stored := view s1, faults := tl (faults s1)\<rparr>"
  have cm: "session_commit s1 = (Inr (), s2)"
    using session_commit_ok [OF ok1] by (simp add: s2_def)
  have clean: "view s2 = stored s2" and st: "Event_table (stored s2) = tbl"
    by (simp_all add: s2_def s1_def)
  have stored_tbl: "Event_table (stored (snd (update_event s event_id title description event_tags
          start_date end_date start_time end_time description_html club_id location cta_link)))
        = tbl"
  proof -
    have tg: "Event_table (stored s3) = Event_table (stored s2)"
      if "add_event_tags s2 event_id tags = (rt, s3)" for tags rt s3
      using add_event_tags_Event_table [OF clean, of event_id tags] that by simp
    show ?thesis
      using found as cm st tg
      by (auto simp: update_event_def simp del: assign_all.simps
            split: option.splits prod.splits sum.splits)
  qed
  show "find ?P (Event_table (stored (snd (update_event s event_id title description event_tags
          start_date end_date start_time end_time description_html club_id location cta_link))))
       = Some ?new
     \<and> (event_tags = None \<longrightarrow>
          fst (update_event s event_id title description event_tags start_date
            end_date start_time end_time description_html club_id location cta_link) = Inr True)"
  proof (intro conjI impI)
    show "find ?P (Event_table (stored (snd (update_event s event_id title description event_tags
          start_date end_date start_time end_time description_html club_id location cta_link))))
       = Some ?new"
      unfolding stored_tbl by (rule ft)
    assume "event_tags = None"
    then show "fst (update_event s event_id title description event_tags start_date
            end_date start_time end_time description_html club_id location cta_link) = Inr True"
      using found as cm by (simp add: update_event_def del: assign_all.simps)
  qed
qed

theorem update_event_overwrites_witness:
  "find (\<lambda>e. Event_id e = Some 7) (Event_table (view (event_session [full_event] [])))
     = Some full_event
   \<and> faults (event_session [full_event] []) = []
   \<and> Event_location full_event = Some ''W20''
   \<and> find (\<lambda>e. Event_id e = Some 7)
       (Event_table (stored (snd (update_event (event_session [full_event] []) 7 ''Party'' ''new''
          None None None None None None None None None))))
     = Some \<lparr>Event_id = Some 7, Event_title = ''Party'', Event_user_id = Some 2,
          Event_description = ''new'', Event_club_id = Some 5,
          Event_description_html = None, Event_location = None,
          Event_start_date = None, Event_end_date = None,
          Event_start_time = None, Event_end_time = None, Event_cta_link = None\<rparr>
   \<and> fst (update_event (event_session [full_event] []) 7 ''Party'' ''new''
          None None None None None None None None None) = Inr True"
proof -
  let ?s = "event_session [full_event] []"
  have f: "find (\<lambda>e. Event_id e = Some 7) (Event_table (view ?s)) = Some full_event"
    by (simp add: event_session_def event_db_def full_event_def)
  have n: "\<forall>f \<in> set (take 10 (faults ?s)). f = None"
    by (simp add: event_session_def)
  have l: "Event_location full_event = Some ''W20''"
    by (simp add: full_event_def)
  have e: "full_event\<lparr>Event_title := ''Party'', Event_description := ''new'',
                 Event_description_html := None, Event_location := None,
                 Event_start_date := None, Event_end_date := None,
                 Event_start_time := None, Event_end_time := None,
                 Event_cta_link := None\<rparr>
     = \<lparr>Event_id = Some 7, Event_title = ''Party'', Event_user_id = Some 2,
          Event_description = ''new'', Event_club_id = Some 5,
          Event_description_html = None, Event_location = None,
          Event_start_date = None, Event_end_date = None,
          Event_start_time = None, Event_end_time = None, Event_cta_link = None\<rparr>"
    by (simp add: full_event_def)
  have z: "faults ?s = []"
    by (simp add: event_session_def)
  from update_event_overwrites [of 7 ?s full_event "''Party''" "''new''" None None None None None
      None None None None] f n l e z
  show ?thesis by simp
qed

section \<open>Properties of updating the description\<close>

text \<open>
  What \<^verbatim>\<open>update_event_description\<close> does, case by case: \<open>False\<close> and an untouched session when
  the event is absent; \<open>False\<close> after a rollback when the first assignment raises; \<open>True\<close>
  when the two assignments and the commit raise nothing; and the exception of the commit,
  not a boolean, when the commit raises.
\<close>

lemma update_event_description_cases:
  "(find (\<lambda>e. Event_id e = Some event_id) (Event_table (view s)) = None \<longrightarrow>
      update_event_description s event_id description description_html = (Inr False, s))
   \<and> (find (\<lambda>e. Event_id e = Some event_id) (Event_table (view s)) = Some event
        \<and> faults s = Some e # fs \<longrightarrow>
      update_event_description s event_id description description_html
        = (Inr False, s\<lparr>view := stored s, faults := fs\<rparr>))
   \<and> (find (\<lambda>e. Event_id e = Some event_id) (Event_table (view s)) = Some event
        \<and> (\<forall>f \<in> set (take 3 (faults s)). f = None) \<longrightarrow>
      fst (update_event_description s event_id description description_html) = Inr True)
   \<and> (find (\<lambda>e. Event_id e = Some event_id) (Event_table (view s)) = Some event
        \<and> faults s = None # None # Some e # fs \<longrightarrow>
      fst (update_event_description s event_id description description_html) = Inl e)"
  by (auto simp: update_event_description_def set_event_attr_def session_commit_def
        session_rollback_def Let_def split: list.splits option.splits)

text \<open>
  Claim C7. The commit of \<^verbatim>\<open>update_event_description\<close> stands in the \<^verbatim>\<open>else\<close> branch of the
  \<^verbatim>\<open>try\<close>, outside the reach of its \<^verbatim>\<open>except\<close>. On an existing event whose commit the store
  rejects, the call ends with the exception rather than with \<open>False\<close>, and without a
  rollback: the view keeps the two new descriptions, the store the old ones.
\<close>

theorem update_event_description_commit_raises:
  "update_event_description (event_session [full_event] [None, None, Some DBAPIError]) 7
       ''new'' (Some ''<p>new</p>'')
     = (Inl DBAPIError,
        \<lparr>stored = event_db [full_event],
         view = event_db [full_event\<lparr>Event_description := ''new'',
                            Event_description_html := Some ''<p>new</p>''\<rparr>],
         faults = []\<rparr>)"
  by code_simp

end
